theory Spec2Isabelle
  imports Main "HOL-Library.AList"
begin

section \<open>The snapshot cache (class DataCacheService)\<close>

text \<open>
  The service keeps a JavaScript \<^verbatim>\<open>Map<string, CacheEntry<any>>\<close>. A JavaScript Map
  iterates in insertion order, \<^verbatim>\<open>Map.set\<close> on a key that is present replaces the value
  in place and on a new key appends, and \<^verbatim>\<open>Map.delete\<close> removes the key. The model
  is an association list with exactly these operations (\<open>AList.update\<close>,
  \<open>AList.delete\<close>, lookup by \<open>map_of\<close>).

  \<^verbatim>\<open>Date.now()\<close> is an input of every method that reads the clock: the integer number of
  milliseconds, passed as the first argument \<open>now\<close>. Payloads are opaque to the service
  (type variable \<open>'a\<close>). A result of type \<^verbatim>\<open>T | null\<close> is an option, \<open>None\<close> for
  \<^verbatim>\<open>null\<close>.
\<close>

record 'a CacheEntry =
  data :: 'a
  timestamp :: int
  isStale :: bool

type_synonym 'a cache = "(string \<times> 'a CacheEntry) list"

definition CACHE_DURATION :: int where
  "CACHE_DURATION = 5 * 60 * 1000"

definition STALE_DURATION :: int where
  "STALE_DURATION = 30 * 60 * 1000"

text \<open>\<^verbatim>\<open>set(key, data)\<close>: a new entry stamped with the current time, flag false.\<close>

definition set_cache :: "int \<Rightarrow> string \<Rightarrow> 'a \<Rightarrow> 'a cache \<Rightarrow> 'a cache" where
  "set_cache now key d c =
     AList.update key \<lparr>data = d, timestamp = now, isStale = False\<rparr> c"

text \<open>
  \<^verbatim>\<open>get(key)\<close>: the two tests of the source in their order. The first one writes the
  flag into the entry object that the map holds (an in-place update of the association
  list); the second one deletes the key and returns \<^verbatim>\<open>null\<close>. The result is the pair of
  the returned value and the cache after the call.
\<close>

definition get :: "int \<Rightarrow> string \<Rightarrow> 'a cache \<Rightarrow> 'a option \<times> 'a cache" where
  "get now key c =
     (case map_of c key of
        None \<Rightarrow> (None, c)
      | Some entry \<Rightarrow>
          let age = now - timestamp entry;
              entry1 = (if age > STALE_DURATION then entry\<lparr>isStale := True\<rparr> else entry);
              c1 = (if age > STALE_DURATION then AList.update key entry1 c else c)
          in if age > CACHE_DURATION then (None, AList.delete key c1)
             else (Some (data entry1), c1))"

text \<open>
  \<^verbatim>\<open>has(key)\<close> and \<^verbatim>\<open>isStale(key)\<close> read the map and the clock. Like every method
  they are written in state-passing style: the result and the cache after the call.
  \<^verbatim>\<open>isStale(key)\<close> compares the age only; it does not read the entry's flag.
\<close>

definition has :: "int \<Rightarrow> string \<Rightarrow> 'a cache \<Rightarrow> bool \<times> 'a cache" where
  "has now key c =
     (case map_of c key of
        None \<Rightarrow> (False, c)
      | Some entry \<Rightarrow> (now - timestamp entry \<le> CACHE_DURATION, c))"

definition isStale_cache :: "int \<Rightarrow> string \<Rightarrow> 'a cache \<Rightarrow> bool \<times> 'a cache" where
  "isStale_cache now key c =
     (case map_of c key of
        None \<Rightarrow> (False, c)
      | Some entry \<Rightarrow> (now - timestamp entry > STALE_DURATION, c))"

definition clear :: "string \<Rightarrow> 'a cache \<Rightarrow> 'a cache" where
  "clear key c = AList.delete key c"

definition clearAll :: "'a cache \<Rightarrow> 'a cache" where
  "clearAll c = []"

text \<open>
  \<^verbatim>\<open>getStats()\<close>. \<^verbatim>\<open>Math.round(x / 1000)\<close> rounds to the nearest integer, a half
  upwards; on an integer number of milliseconds that is \<open>(x + 500) div 1000\<close> with the
  floor division of \<open>int\<close>. The reported \<^verbatim>\<open>isStale\<close> is read from the entry object.
\<close>

record StatsEntry =
  key_s :: string
  age_s :: int
  isStale_s :: bool

record Stats =
  size_s :: nat
  keys_s :: "string list"
  entries_s :: "StatsEntry list"

definition statsEntry :: "int \<Rightarrow> string \<Rightarrow> 'a CacheEntry \<Rightarrow> StatsEntry" where
  "statsEntry now key entry =
     \<lparr>key_s = key,
      age_s = (now - timestamp entry + 500) div 1000,
      isStale_s = isStale entry\<rparr>"

definition getStats :: "int \<Rightarrow> 'a cache \<Rightarrow> Stats \<times> 'a cache" where
  "getStats now c =
     (\<lparr>size_s = length c,
       keys_s = map fst c,
       entries_s = map (\<lambda>(key, entry). statsEntry now key entry) c\<rparr>, c)"

text \<open>\<^verbatim>\<open>markStale(key)\<close>: sets the flag of the entry object when the key is present.\<close>

definition markStale :: "string \<Rightarrow> 'a cache \<Rightarrow> 'a cache" where
  "markStale key c =
     (case map_of c key of
        None \<Rightarrow> c
      | Some entry \<Rightarrow> AList.update key (entry\<lparr>isStale := True\<rparr>) c)"

subsection \<open>Sequences of calls\<close>

text \<open>
  A call of a public method, and the cache it leaves behind. \<open>run\<close> performs a list of
  calls, each at its own reading of the clock, in order.
\<close>

datatype 'a op =
    SetOp string 'a
  | GetOp string
  | HasOp string
  | IsStaleOp string
  | ClearOp string
  | ClearAllOp
  | GetStatsOp
  | MarkStaleOp string

fun exec :: "int \<Rightarrow> 'a op \<Rightarrow> 'a cache \<Rightarrow> 'a cache" where
  "exec now (SetOp key d) c = set_cache now key d c"
| "exec now (GetOp key) c = snd (get now key c)"
| "exec now (HasOp key) c = snd (has now key c)"
| "exec now (IsStaleOp key) c = snd (isStale_cache now key c)"
| "exec now (ClearOp key) c = clear key c"
| "exec now ClearAllOp c = clearAll c"
| "exec now GetStatsOp c = snd (getStats now c)"
| "exec now (MarkStaleOp key) c = markStale key c"

fun run :: "(int \<times> 'a op) list \<Rightarrow> 'a cache \<Rightarrow> 'a cache" where
  "run [] c = c"
| "run ((now, call) # rest) c = run rest (exec now call c)"

text \<open>The calls that can take the key out of the map: \<open>get\<close> and \<open>clear\<close> on it, \<open>clearAll\<close>.\<close>

fun removes :: "string \<Rightarrow> 'a op \<Rightarrow> bool" where
  "removes k (GetOp key) = (key = k)"
| "removes k (ClearOp key) = (key = k)"
| "removes k ClearAllOp = True"
| "removes k _ = False"

text \<open>The calls \<open>has\<close> and \<open>isStale\<close>, on any key.\<close>

fun is_check :: "'a op \<Rightarrow> bool" where
  "is_check (HasOp key) = True"
| "is_check (IsStaleOp key) = True"
| "is_check _ = False"

text \<open>The flag stored in the entry of a key; false when the key has no entry.\<close>

definition stored_flag :: "string \<Rightarrow> 'a cache \<Rightarrow> bool" where
  "stored_flag k c = (case map_of c k of None \<Rightarrow> False | Some entry \<Rightarrow> isStale entry)"

text \<open>The line of \<open>getStats\<close> for a key: the first entry of the report with that key.\<close>

definition stats_of :: "string \<Rightarrow> Stats \<Rightarrow> StatsEntry option" where
  "stats_of k st = find (\<lambda>s. key_s s = k) (entries_s st)"

section \<open>The cached-stream coordinator (hook useCachedSSE)\<close>

text \<open>
  The hook tests payloads for truthiness (\<^verbatim>\<open>sseResult.data && ...\<close>,
  \<^verbatim>\<open>cachedData && ...\<close>), so its payloads are JSON values. Numbers are kept as integers:
  of a number the hook only asks whether it is zero. \<open>toBoolean\<close> is the test on a
  value of type \<^verbatim>\<open>T | null\<close>.
\<close>

datatype jsval =
    JNull
  | JBool bool
  | JNum int
  | JStr string
  | JArr "jsval list"
  | JObj "(string \<times> jsval) list"

fun truthy :: "jsval \<Rightarrow> bool" where
  "truthy JNull = False"
| "truthy (JBool b) = b"
| "truthy (JNum n) = (n \<noteq> 0)"
| "truthy (JStr s) = (s \<noteq> [])"
| "truthy (JArr xs) = True"
| "truthy (JObj fs) = True"

fun toBoolean :: "jsval option \<Rightarrow> bool" where
  "toBoolean None = False"
| "toBoolean (Some v) = truthy v"

text \<open>
  \<^verbatim>\<open>url.trim()\<close> strips white space from both ends. A \<open>char\<close> is a code unit below
  256; the white space of JavaScript in that range is tab, line feed, vertical tab, form
  feed, carriage return, space and the no-break space.
\<close>

definition isWhiteSpace :: "char \<Rightarrow> bool" where
  "isWhiteSpace ch =
     (ch \<in> set [CHR 0x09, CHR 0x0A, CHR 0x0B, CHR 0x0C, CHR 0x0D, CHR 0x20, CHR 0xA0])"

definition trim :: "string \<Rightarrow> string" where
  "trim s = rev (dropWhile isWhiteSpace (rev (dropWhile isWhiteSpace s)))"

text \<open>
  The hook \<^verbatim>\<open>useSSE\<close> belongs to another module; what it returns is an input
  of the coordinator.
\<close>

record 'e SSEResult =
  sse_data :: "jsval option"
  sse_error :: "'e option"
  sse_isConnected :: bool
  sse_isConnecting :: bool
  sse_loading :: bool

text \<open>
  The options of the caller. A callback acts on the caller's own state \<open>'w\<close>; an
  absent callback is \<open>None\<close> (the source calls \<^verbatim>\<open>onError?.(error)\<close>).
\<close>

record ('e, 'w) UseCachedSSEOptions =
  onMessage :: "(jsval \<Rightarrow> 'w \<Rightarrow> 'w) option"
  onError :: "('e \<Rightarrow> 'w \<Rightarrow> 'w) option"
  onOpen :: "('w \<Rightarrow> 'w) option"
  onClose :: "('w \<Rightarrow> 'w) option"
  cacheKey :: string
  forceRefresh :: bool

text \<open>
  What the coordinator can change: the process-wide cache, the three \<^verbatim>\<open>useState\<close>
  cells and the ref of the hook, and the caller's state.
\<close>

record 'w coordinator =
  dataCache :: "jsval cache"
  isCached_st :: bool
  isStale_st :: bool
  initialLoad_st :: bool
  hasConnectedRef :: bool
  caller :: 'w

text \<open>\<^verbatim>\<open>shouldShowLoading\<close>, over the variables of the render it closes over.\<close>

definition shouldShowLoading ::
  "string \<Rightarrow> bool \<Rightarrow> bool \<Rightarrow> bool \<Rightarrow> bool \<Rightarrow> 'e SSEResult \<Rightarrow> bool" where
  "shouldShowLoading url initialLoad cachedExists forceRefresh' cachedIsStale sseResult =
     (if url = [] \<or> trim url = [] then False
      else if initialLoad \<and> \<not> cachedExists then True
      else if forceRefresh' then True
      else if cachedExists \<and> cachedIsStale \<and> sse_isConnecting sseResult then True
      else if cachedExists \<and> \<not> cachedIsStale then False
      else sse_loading sseResult)"

text \<open>The value of \<^verbatim>\<open>data\<close> that the hook returns.\<close>

definition resolveData :: "'e SSEResult \<Rightarrow> jsval option \<Rightarrow> bool \<Rightarrow> jsval option" where
  "resolveData sseResult cachedData forceRefresh' =
     (if toBoolean (sse_data sseResult) \<and> \<not> forceRefresh' then sse_data sseResult
      else if toBoolean cachedData \<and> \<not> forceRefresh' then cachedData
      else None)"

record 'e UseCachedSSEReturn =
  data_r :: "jsval option"
  error_r :: "'e option"
  isConnected_r :: bool
  isConnecting_r :: bool
  loading_r :: bool
  isCached_r :: bool
  isStale_r :: bool

text \<open>
  One render of the hook. It calls \<^verbatim>\<open>dataCache.get\<close>, \<^verbatim>\<open>dataCache.has\<close> and
  \<^verbatim>\<open>dataCache.isStale\<close> in this order, each with its own reading of the clock
  (\<open>t1\<close>, \<open>t2\<close>, \<open>t3\<close>), and returns the view together with the state after the
  render (\<open>get\<close> can delete the entry).
\<close>

definition useCachedSSE ::
  "int \<Rightarrow> int \<Rightarrow> int \<Rightarrow> string \<Rightarrow> ('e, 'w) UseCachedSSEOptions \<Rightarrow> 'e SSEResult \<Rightarrow>
   'w coordinator \<Rightarrow> 'e UseCachedSSEReturn \<times> 'w coordinator" where
  "useCachedSSE t1 t2 t3 url options sseResult st =
     (let (cachedData, c1) = get t1 (cacheKey options) (dataCache st);
          (cachedExists, c2) = has t2 (cacheKey options) c1;
          (cachedIsStale, c3) = isStale_cache t3 (cacheKey options) c2
      in (\<lparr>data_r = resolveData sseResult cachedData (forceRefresh options),
           error_r = sse_error sseResult,
           isConnected_r = sse_isConnected sseResult,
           isConnecting_r = sse_isConnecting sseResult,
           loading_r =
             shouldShowLoading url (initialLoad_st st) cachedExists (forceRefresh options)
               cachedIsStale sseResult,
           isCached_r = isCached_st st,
           isStale_r = isStale_st st\<rparr>,
          st\<lparr>dataCache := c3\<rparr>))"

text \<open>The handlers the hook passes to \<^verbatim>\<open>useSSE\<close>, and \<^verbatim>\<open>refreshData\<close>.\<close>

definition call1 :: "('x \<Rightarrow> 'w \<Rightarrow> 'w) option \<Rightarrow> 'x \<Rightarrow> 'w \<Rightarrow> 'w" where
  "call1 cb x w = (case cb of None \<Rightarrow> w | Some f \<Rightarrow> f x w)"

definition call0 :: "('w \<Rightarrow> 'w) option \<Rightarrow> 'w \<Rightarrow> 'w" where
  "call0 cb w = (case cb of None \<Rightarrow> w | Some f \<Rightarrow> f w)"

definition sse_onMessage ::
  "int \<Rightarrow> ('e, 'w) UseCachedSSEOptions \<Rightarrow> jsval \<Rightarrow> 'w coordinator \<Rightarrow> 'w coordinator" where
  "sse_onMessage now options d st =
     st\<lparr>dataCache := set_cache now (cacheKey options) d (dataCache st),
        isCached_st := True,
        isStale_st := False,
        caller := call1 (onMessage options) d (caller st)\<rparr>"

definition sse_onError ::
  "('e, 'w) UseCachedSSEOptions \<Rightarrow> 'e \<Rightarrow> 'w coordinator \<Rightarrow> 'w coordinator" where
  "sse_onError options err st = st\<lparr>caller := call1 (onError options) err (caller st)\<rparr>"

definition sse_onOpen :: "('e, 'w) UseCachedSSEOptions \<Rightarrow> 'w coordinator \<Rightarrow> 'w coordinator" where
  "sse_onOpen options st =
     st\<lparr>hasConnectedRef := True, caller := call0 (onOpen options) (caller st)\<rparr>"

definition sse_onClose :: "('e, 'w) UseCachedSSEOptions \<Rightarrow> 'w coordinator \<Rightarrow> 'w coordinator" where
  "sse_onClose options st = st\<lparr>caller := call0 (onClose options) (caller st)\<rparr>"

definition refreshData :: "('e, 'w) UseCachedSSEOptions \<Rightarrow> 'w coordinator \<Rightarrow> 'w coordinator" where
  "refreshData options st =
     st\<lparr>dataCache := markStale (cacheKey options) (dataCache st),
        isStale_st := True,
        initialLoad_st := True\<rparr>"

text \<open>
  The resolution of \<^verbatim>\<open>loading\<close> in the words of the specification, which tests the URL
  for being empty, and the same with the test the hook makes (empty or white space
  only).
\<close>

definition loading_resolution ::
  "bool \<Rightarrow> bool \<Rightarrow> bool \<Rightarrow> bool \<Rightarrow> bool \<Rightarrow> bool \<Rightarrow> bool \<Rightarrow> bool" where
  "loading_resolution noUrl firstLoad cachedExists forced cachedIsStale connecting sseLoading =
     (if noUrl then False
      else if firstLoad \<and> \<not> cachedExists then True
      else if forced then True
      else if cachedExists \<and> cachedIsStale \<and> connecting then True
      else if cachedExists \<and> \<not> cachedIsStale then False
      else sseLoading)"

definition loading_spec ::
  "string \<Rightarrow> bool \<Rightarrow> bool \<Rightarrow> bool \<Rightarrow> bool \<Rightarrow> 'e SSEResult \<Rightarrow> bool" where
  "loading_spec url firstLoad cachedExists forced cachedIsStale sseResult =
     loading_resolution (url = []) firstLoad cachedExists forced cachedIsStale
       (sse_isConnecting sseResult) (sse_loading sseResult)"

text \<open>
  The resolution of \<^verbatim>\<open>data\<close> in the words of the specification: a live message is
  available, and a cached payload present, when it is not \<^verbatim>\<open>null\<close>.
\<close>

definition data_spec :: "'e SSEResult \<Rightarrow> jsval option \<Rightarrow> bool \<Rightarrow> jsval option" where
  "data_spec sseResult cachedData forced =
     (if sse_data sseResult \<noteq> None \<and> \<not> forced then sse_data sseResult
      else if cachedData \<noteq> None \<and> \<not> forced then cachedData
      else None)"

section \<open>Basic facts about the cache operations\<close>

lemma map_of_set_cache:
  "map_of (set_cache now key d c) =
     (map_of c)(key \<mapsto> \<lparr>data = d, timestamp = now, isStale = False\<rparr>)"
  by (simp add: set_cache_def update_conv')

text \<open>
  C6. For every key and payload, a \<open>get\<close> right after \<open>set\<close> (the clock has not moved, so
  the age is 0) returns the payload, and leaves the cache as \<open>set\<close> made it.
\<close>

theorem get_after_set:
  "get now key (set_cache now key v c) = (Some v, set_cache now key v c)"
  by (simp add: get_def map_of_set_cache CACHE_DURATION_def STALE_DURATION_def)

lemma map_of_markStale_present:
  "map_of c k = Some e \<Longrightarrow> map_of (markStale k c) = (map_of c)(k \<mapsto> e\<lparr>isStale := True\<rparr>)"
  by (simp add: markStale_def update_conv')

lemma markStale_absent: "map_of c k = None \<Longrightarrow> markStale k c = c"
  by (simp add: markStale_def)

lemma keys_markStale: "map fst (markStale k c) = map fst c"
  by (auto simp: markStale_def update_keys map_of_eq_None_iff split: option.splits dest: weak_map_of_SomeI intro: image_eqI[where x="(k,_)"])


lemma find_stats:
  "find (\<lambda>s. key_s s = k) (map (\<lambda>(key, entry). statsEntry now key entry) c) =
   map_option (statsEntry now k) (map_of c k)"
  by (induction c) (auto simp: statsEntry_def)

lemma stats_of_getStats:
  "stats_of k (fst (getStats now c)) = map_option (statsEntry now k) (map_of c k)"
  by (simp add: stats_of_def getStats_def find_stats)




lemma get_absent: "map_of c k = None \<Longrightarrow> get now k c = (None, c)"
  by (simp add: get_def)

lemma get_expired:
  "map_of c k = Some e \<Longrightarrow> now - timestamp e > CACHE_DURATION \<Longrightarrow>
   get now k c = (None, AList.delete k c)"
  by (simp add: get_def Let_def delete_update_same)

lemma get_live:
  "map_of c k = Some e \<Longrightarrow> \<not> now - timestamp e > CACHE_DURATION \<Longrightarrow>
   get now k c = (Some (data e), c)"
  by (simp add: get_def Let_def CACHE_DURATION_def STALE_DURATION_def)

lemma durations: "CACHE_DURATION = 300 * 1000 \<and> STALE_DURATION = 1800 * 1000"
  by (simp add: CACHE_DURATION_def STALE_DURATION_def)

text \<open>
  C2. The expiry threshold is 300 s and the staleness threshold 1800 s. For an entry
  whose age exceeds the staleness threshold, \<open>get\<close> returns absent and the key is gone
  from the cache. Whenever \<open>get\<close> returns a payload, the cache is unchanged (so the flag
  was not written on that path) and the payload is that of an entry whose age is within
  the expiry threshold, hence within the staleness threshold.
\<close>

theorem get_never_returns_stale:
  "CACHE_DURATION = 300 * 1000 \<and> STALE_DURATION = 1800 * 1000 \<and>
   (\<forall>e. map_of c k = Some e \<and> now - timestamp e > STALE_DURATION \<longrightarrow>
      fst (get now k c) = None \<and> k \<notin> fst ` set (snd (get now k c))) \<and>
   (\<forall>v c'. get now k c = (Some v, c') \<longrightarrow>
      c' = c \<and>
      (\<exists>e. map_of c k = Some e \<and> data e = v \<and> now - timestamp e \<le> CACHE_DURATION \<and>
           now - timestamp e \<le> STALE_DURATION))"
proof -
  have beyond: "\<forall>e. map_of c k = Some e \<and> now - timestamp e > STALE_DURATION \<longrightarrow>
      fst (get now k c) = None \<and> k \<notin> fst ` set (snd (get now k c))"
  proof (intro allI impI)
    fix e assume a: "map_of c k = Some e \<and> now - timestamp e > STALE_DURATION"
    then have "now - timestamp e > CACHE_DURATION"
      by (simp add: CACHE_DURATION_def STALE_DURATION_def)
    with a have "get now k c = (None, AList.delete k c)"
      by (simp add: get_expired)
    then show "fst (get now k c) = None \<and> k \<notin> fst ` set (snd (get now k c))"
      by (simp add: delete_notin_dom)
  qed
  have payload: "\<forall>v c'. get now k c = (Some v, c') \<longrightarrow>
      c' = c \<and>
      (\<exists>e. map_of c k = Some e \<and> data e = v \<and> now - timestamp e \<le> CACHE_DURATION \<and>
           now - timestamp e \<le> STALE_DURATION)"
  proof (intro allI impI)
    fix v c' assume r: "get now k c = (Some v, c')"
    show "c' = c \<and>
      (\<exists>e. map_of c k = Some e \<and> data e = v \<and> now - timestamp e \<le> CACHE_DURATION \<and>
           now - timestamp e \<le> STALE_DURATION)"
    proof (cases "map_of c k")
      case None
      with r show ?thesis by (simp add: get_absent)
    next
      case (Some e)
      show ?thesis
      proof (cases "now - timestamp e > CACHE_DURATION")
        case True
        with Some r show ?thesis by (simp add: get_expired)
      next
        case False
        with Some r have "c' = c" and "data e = v" by (simp_all add: get_live)
        moreover from False have "now - timestamp e \<le> STALE_DURATION"
          by (simp add: CACHE_DURATION_def STALE_DURATION_def)
        ultimately show ?thesis using Some False by simp
      qed
    qed
  qed
  from durations beyond payload show ?thesis by blast
qed

text \<open>
  C2 at a concrete cache: an entry of age 1900 s is deleted, an entry of age 1 s is
  returned.
\<close>

theorem get_never_returns_stale_witness:
  "fst (get 1900000 ''suction_system_data''
          [(''suction_system_data'', \<lparr>data = JNum 5, timestamp = 0, isStale = False\<rparr>)]) = None \<and>
   ''suction_system_data'' \<notin> fst ` set (snd (get 1900000 ''suction_system_data''
          [(''suction_system_data'', \<lparr>data = JNum 5, timestamp = 0, isStale = False\<rparr>)])) \<and>
   get 1000 ''suction_system_data''
          [(''suction_system_data'', \<lparr>data = JNum 5, timestamp = 0, isStale = False\<rparr>)] =
     (Some (JNum 5),
      [(''suction_system_data'', \<lparr>data = JNum 5, timestamp = 0, isStale = False\<rparr>)])"
proof -
  let ?c = "[(''suction_system_data'', \<lparr>data = JNum 5, timestamp = 0, isStale = False\<rparr>)]"
  have r: "get 1000 ''suction_system_data'' ?c = (Some (JNum 5), ?c)"
    by (simp add: get_def CACHE_DURATION_def STALE_DURATION_def)
  from get_never_returns_stale [of ?c "''suction_system_data''" 1900000]
  have "fst (get 1900000 ''suction_system_data'' ?c) = None \<and>
        ''suction_system_data'' \<notin> fst ` set (snd (get 1900000 ''suction_system_data'' ?c))"
    by (simp add: STALE_DURATION_def)
  moreover from get_never_returns_stale [of ?c "''suction_system_data''" 1000] r
  have "snd (get 1000 ''suction_system_data'' ?c) = ?c" by simp
  ultimately show ?thesis using r by simp
qed

text \<open>
  C3. For an entry whose age exceeds the expiry threshold, \<open>get\<close> returns absent and
  removes the key, so \<open>has\<close> on the resulting cache is false at any time.
\<close>

theorem get_expired_removes:
  "map_of c k = Some e \<Longrightarrow> now - timestamp e > CACHE_DURATION \<Longrightarrow>
   fst (get now k c) = None \<and>
   k \<notin> fst ` set (snd (get now k c)) \<and>
   map_of (snd (get now k c)) k = None \<and>
   fst (has now' k (snd (get now k c))) = False"
proof -
  assume e: "map_of c k = Some e" and old: "now - timestamp e > CACHE_DURATION"
  then have g: "get now k c = (None, AList.delete k c)"
    by (rule get_expired)
  have gone: "map_of (AList.delete k c) k = None"
    by (simp add: delete_conv')
  then have "fst (has now' k (AList.delete k c)) = False"
    by (simp add: has_def)
  with g gone show ?thesis
    by (simp add: delete_notin_dom)
qed

text \<open>
  C3 at a concrete cache: an entry of age 300.001 s.
\<close>

theorem get_expired_removes_witness:
  "fst (get 300001 ''dashboard_data''
          [(''dashboard_data'', \<lparr>data = JNum 72, timestamp = 0, isStale = False\<rparr>)]) = None \<and>
   snd (get 300001 ''dashboard_data''
          [(''dashboard_data'', \<lparr>data = JNum 72, timestamp = 0, isStale = False\<rparr>)]) = [] \<and>
   fst (has 300001 ''dashboard_data'' (snd (get 300001 ''dashboard_data''
          [(''dashboard_data'', \<lparr>data = JNum 72, timestamp = 0, isStale = False\<rparr>)]))) = False"
proof -
  let ?c = "[(''dashboard_data'', \<lparr>data = JNum 72, timestamp = 0, isStale = False\<rparr>)]"
  have e: "map_of ?c ''dashboard_data'' = Some \<lparr>data = JNum 72, timestamp = 0, isStale = False\<rparr>"
    by simp
  have old: "300001 - timestamp \<lparr>data = JNum 72, timestamp = 0, isStale = False\<rparr> > CACHE_DURATION"
    by (simp add: CACHE_DURATION_def)
  have "snd (get 300001 ''dashboard_data'' ?c) = []"
    by (simp add: get_def CACHE_DURATION_def STALE_DURATION_def)
  with get_expired_removes [OF e old, of 300001] show ?thesis by simp
qed

section \<open>The coordinator's view\<close>

lemma dropWhile_rev_empty:
  "dropWhile P (rev (dropWhile P s)) = [] \<longleftrightarrow> dropWhile P s = []"
proof
  assume "dropWhile P (rev (dropWhile P s)) = []"
  then have all: "\<And>x. x \<in> set (dropWhile P s) \<Longrightarrow> P x"
    by (auto simp: dropWhile_eq_Nil_conv)
  show "dropWhile P s = []"
  proof (rule ccontr)
    assume ne: "dropWhile P s \<noteq> []"
    then have "\<not> P (hd (dropWhile P s))"
      by (rule hd_dropWhile)
    moreover from ne have "hd (dropWhile P s) \<in> set (dropWhile P s)"
      by (rule hd_in_set)
    ultimately show False using all by blast
  qed
next
  assume "dropWhile P s = []"
  then show "dropWhile P (rev (dropWhile P s)) = []"
    by (simp only: rev.simps dropWhile.simps)
qed

lemma trim_empty_iff: "trim s = [] \<longleftrightarrow> list_all isWhiteSpace s"
  unfolding trim_def rev_is_Nil_conv dropWhile_rev_empty
  by (simp add: dropWhile_eq_Nil_conv list_all_iff)

lemma blank_url: "(url = [] \<or> trim url = []) \<longleftrightarrow> list_all isWhiteSpace url"
  by (auto simp: trim_empty_iff)

text \<open>
  C4, as stated, fails: with the URL of one space, on the first load and with no
  cached entry, the resolution of the specification (which tests for the empty URL)
  gives true, while the hook trims the URL first and returns false.
\<close>

theorem loading_blank_url_counterexample:
  "shouldShowLoading '' '' True False False False
     \<lparr>sse_data = None, sse_error = None :: string option, sse_isConnected = False,
      sse_isConnecting = True, sse_loading = True\<rparr> = False \<and>
   loading_spec '' '' True False False False
     \<lparr>sse_data = None, sse_error = None :: string option, sse_isConnected = False,
      sse_isConnecting = True, sse_loading = True\<rparr> = True"
  by (simp add: shouldShowLoading_def loading_spec_def loading_resolution_def trim_def
        isWhiteSpace_def)

text \<open>
  C4, amended. \<open>loading\<close> is false if the URL is empty or consists of white space
  only; otherwise true on the first load with no cached entry; otherwise true under
  \<open>forceRefresh\<close>; otherwise true if a cached entry exists, is stale and the subscription
  is connecting; otherwise false if a non-stale cached entry exists; otherwise the
  subscription's loading flag. In a render, whether a cached entry exists is the answer
  of \<open>has\<close>, and whether it is stale that of \<open>isStale\<close>, both asked after the
  \<open>get\<close> of that render. For the empty URL \<open>loading\<close> is false.
\<close>

theorem shouldShowLoading_resolution:
  "shouldShowLoading url firstLoad cachedExists forced cachedIsStale sseResult =
     loading_resolution (list_all isWhiteSpace url) firstLoad cachedExists forced cachedIsStale
       (sse_isConnecting sseResult) (sse_loading sseResult) \<and>
   loading_r (fst (useCachedSSE t1 t2 t3 url options sseResult st)) =
     loading_resolution (list_all isWhiteSpace url) (initialLoad_st st)
       (fst (has t2 (cacheKey options) (snd (get t1 (cacheKey options) (dataCache st)))))
       (forceRefresh options)
       (fst (isStale_cache t3 (cacheKey options) (snd (get t1 (cacheKey options) (dataCache st)))))
       (sse_isConnecting sseResult) (sse_loading sseResult) \<and>
   shouldShowLoading [] firstLoad cachedExists forced cachedIsStale sseResult = False"
proof -
  have a: "\<And>u f e r s. shouldShowLoading u f e r s sseResult =
     loading_resolution (list_all isWhiteSpace u) f e r s
       (sse_isConnecting sseResult) (sse_loading sseResult)"
    unfolding shouldShowLoading_def loading_resolution_def blank_url ..
  have s2: "snd (has t2 (cacheKey options) c) = c" for c :: "jsval cache"
    by (simp add: has_def split: option.splits)
  have b: "loading_r (fst (useCachedSSE t1 t2 t3 url options sseResult st)) =
     shouldShowLoading url (initialLoad_st st)
       (fst (has t2 (cacheKey options) (snd (get t1 (cacheKey options) (dataCache st)))))
       (forceRefresh options)
       (fst (isStale_cache t3 (cacheKey options) (snd (get t1 (cacheKey options) (dataCache st)))))
       sseResult"
    using s2 by (simp add: useCachedSSE_def split_beta)
  show ?thesis
    by (simp add: a b loading_resolution_def)
qed

lemma data_r_useCachedSSE:
  "data_r (fst (useCachedSSE t1 t2 t3 url options sseResult st)) =
     resolveData sseResult (fst (get t1 (cacheKey options) (dataCache st))) (forceRefresh options)"
  by (simp add: useCachedSSE_def split_beta)

text \<open>
  C5, as stated, fails: the latest live message is the number 0 and the cache holds an
  older object, with \<open>forceRefresh\<close> off. The resolution of the specification gives the
  live message; the hook tests \<^verbatim>\<open>sseResult.data && ...\<close>, finds 0 falsy and returns the
  cached object. Likewise a cached 0 with no live message resolves to \<^verbatim>\<open>null\<close>.
\<close>

theorem data_falsy_payload_counterexample:
  "resolveData \<lparr>sse_data = Some (JNum 0), sse_error = None :: string option,
       sse_isConnected = True, sse_isConnecting = False, sse_loading = False\<rparr>
     (Some (JObj [(''temp'', JNum 70)])) False = Some (JObj [(''temp'', JNum 70)]) \<and>
   data_spec \<lparr>sse_data = Some (JNum 0), sse_error = None :: string option,
       sse_isConnected = True, sse_isConnecting = False, sse_loading = False\<rparr>
     (Some (JObj [(''temp'', JNum 70)])) False = Some (JNum 0) \<and>
   resolveData \<lparr>sse_data = None, sse_error = None :: string option,
       sse_isConnected = False, sse_isConnecting = True, sse_loading = True\<rparr>
     (Some (JNum 0)) False = None \<and>
   data_spec \<lparr>sse_data = None, sse_error = None :: string option,
       sse_isConnected = False, sse_isConnecting = True, sse_loading = True\<rparr>
     (Some (JNum 0)) False = Some (JNum 0)"
  by (simp add: resolveData_def data_spec_def)

text \<open>
  C5, amended. The \<open>data\<close> of a render is resolved from the live message of the
  subscription and the payload that \<open>get\<close> returned: the live message if it is truthy
  and \<open>forceRefresh\<close> is off; otherwise the cached payload if it is truthy and
  \<open>forceRefresh\<close> is off; otherwise absent; and absent whenever \<open>forceRefresh\<close> is on.
  Truthy is the test \<open>toBoolean\<close> of the source (\<^verbatim>\<open>sseResult.data && ...\<close>,
  \<^verbatim>\<open>cachedData && ...\<close>): not \<^verbatim>\<open>null\<close>, and not one of the payloads \<^verbatim>\<open>false\<close>, 0
  and the empty string.
\<close>

theorem data_resolution_order:
  "data_r (fst (useCachedSSE t1 t2 t3 url options sseResult st)) =
     resolveData sseResult (fst (get t1 (cacheKey options) (dataCache st))) (forceRefresh options) \<and>
   (toBoolean (sse_data sseResult) \<and> \<not> forced \<longrightarrow>
      resolveData sseResult cachedData forced = sse_data sseResult) \<and>
   (\<not> (toBoolean (sse_data sseResult) \<and> \<not> forced) \<and> toBoolean cachedData \<and> \<not> forced \<longrightarrow>
      resolveData sseResult cachedData forced = cachedData) \<and>
   (\<not> (toBoolean (sse_data sseResult) \<and> \<not> forced) \<and> \<not> (toBoolean cachedData \<and> \<not> forced) \<longrightarrow>
      resolveData sseResult cachedData forced = None) \<and>
   (forced \<longrightarrow> resolveData sseResult cachedData forced = None)"
  by (simp add: data_r_useCachedSSE resolveData_def)

text \<open>
  The amended C5 at a live message, at a cached payload only, at neither, and under
  \<open>forceRefresh\<close>.
\<close>

theorem data_resolution_order_witness:
  "resolveData \<lparr>sse_data = Some (JObj [(''temp'', JNum 72)]), sse_error = None :: string option,
       sse_isConnected = True, sse_isConnecting = False, sse_loading = False\<rparr>
     (Some (JObj [(''temp'', JNum 70)])) False = Some (JObj [(''temp'', JNum 72)]) \<and>
   resolveData \<lparr>sse_data = None, sse_error = None :: string option,
       sse_isConnected = False, sse_isConnecting = True, sse_loading = True\<rparr>
     (Some (JObj [(''temp'', JNum 70)])) False = Some (JObj [(''temp'', JNum 70)]) \<and>
   resolveData \<lparr>sse_data = None, sse_error = None :: string option,
       sse_isConnected = False, sse_isConnecting = True, sse_loading = True\<rparr>
     None False = None \<and>
   resolveData \<lparr>sse_data = Some (JObj [(''temp'', JNum 72)]), sse_error = None :: string option,
       sse_isConnected = True, sse_isConnecting = False, sse_loading = False\<rparr>
     (Some (JObj [(''temp'', JNum 70)])) True = None"
proof -
  let ?live = "\<lparr>sse_data = Some (JObj [(''temp'', JNum 72)]), sse_error = None :: string option,
       sse_isConnected = True, sse_isConnecting = False, sse_loading = False\<rparr>"
  let ?idle = "\<lparr>sse_data = None, sse_error = None :: string option,
       sse_isConnected = False, sse_isConnecting = True, sse_loading = True\<rparr>"
  let ?old = "Some (JObj [(''temp'', JNum 70)])"
  note order = data_resolution_order [THEN conjunct2]
  have "resolveData ?live ?old False = Some (JObj [(''temp'', JNum 72)])"
    using order [of ?live False ?old] by simp
  moreover have "resolveData ?idle ?old False = ?old"
    using order [of ?idle False ?old] by simp
  moreover have "resolveData ?idle None False = None"
    using order [of ?idle False None] by simp
  moreover have "resolveData ?live ?old True = None"
    using order [of ?live True ?old] by simp
  ultimately show ?thesis by simp
qed

section \<open>Refresh and stream errors\<close>


lemma update_keeps_field:
  "map_of c k = Some e \<Longrightarrow> f e' = f e \<Longrightarrow>
   map (\<lambda>p. f (snd p)) (AList.update k e' c) = map (\<lambda>p. f (snd p)) c"
  by (induction c) (auto split: if_splits)

lemma markStale_keeps_data:
  "map (\<lambda>p. data (snd p)) (markStale k c) = map (\<lambda>p. data (snd p)) c"
  by (cases "map_of c k") (simp_all add: markStale_def update_keeps_field)

lemma markStale_keeps_timestamp:
  "map (\<lambda>p. timestamp (snd p)) (markStale k c) = map (\<lambda>p. timestamp (snd p)) c"
  by (cases "map_of c k") (simp_all add: markStale_def update_keeps_field)

lemma get_markStale:
  "fst (get now k (markStale k c)) = fst (get now k c)"
proof (cases "map_of c k")
  case None
  then show ?thesis by (simp add: markStale_absent)
next
  case (Some e)
  then have m: "map_of (markStale k c) k = Some (e\<lparr>isStale := True\<rparr>)"
    by (simp add: map_of_markStale_present)
  show ?thesis
  proof (cases "now - timestamp e > CACHE_DURATION")
    case True
    with Some m show ?thesis by (simp add: get_expired)
  next
    case False
    with Some m show ?thesis by (simp add: get_live)
  qed
qed

text \<open>
  C7. \<open>refreshData\<close> removes no entry and adds none, and changes no payload and no
  timestamp; the entry of the key, when there is one, gets its flag set; the hook's
  initial-load and stale cells are set; and the \<open>data\<close> of a render after
  \<open>refreshData\<close> is the \<open>data\<close> of the same render without it.
\<close>

theorem refreshData_keeps_entry:
  "map fst (dataCache (refreshData options st)) = map fst (dataCache st) \<and>
   map (\<lambda>p. data (snd p)) (dataCache (refreshData options st)) =
     map (\<lambda>p. data (snd p)) (dataCache st) \<and>
   map (\<lambda>p. timestamp (snd p)) (dataCache (refreshData options st)) =
     map (\<lambda>p. timestamp (snd p)) (dataCache st) \<and>
   (\<forall>e. map_of (dataCache st) (cacheKey options) = Some e \<longrightarrow>
      map_of (dataCache (refreshData options st)) (cacheKey options) =
        Some (e\<lparr>isStale := True\<rparr>)) \<and>
   initialLoad_st (refreshData options st) \<and>
   isStale_st (refreshData options st) \<and>
   data_r (fst (useCachedSSE t1 t2 t3 url options sseResult (refreshData options st))) =
     data_r (fst (useCachedSSE t1 t2 t3 url options sseResult st))"
proof -
  have c: "dataCache (refreshData options st) = markStale (cacheKey options) (dataCache st)"
    by (simp add: refreshData_def)
  have flags: "initialLoad_st (refreshData options st) \<and> isStale_st (refreshData options st)"
    by (simp add: refreshData_def)
  have entry: "\<forall>e. map_of (dataCache st) (cacheKey options) = Some e \<longrightarrow>
      map_of (dataCache (refreshData options st)) (cacheKey options) =
        Some (e\<lparr>isStale := True\<rparr>)"
    by (simp add: c map_of_markStale_present)
  have served: "data_r (fst (useCachedSSE t1 t2 t3 url options sseResult (refreshData options st))) =
     data_r (fst (useCachedSSE t1 t2 t3 url options sseResult st))"
    by (simp add: data_r_useCachedSSE c get_markStale)
  from flags entry served show ?thesis
    by (simp add: c keys_markStale markStale_keeps_data markStale_keeps_timestamp)
qed

text \<open>
  C7 at a cache with one fresh entry: the entry stays, with its flag set.
\<close>

theorem refreshData_keeps_entry_witness:
  "dataCache (refreshData
      \<lparr>onMessage = None, onError = None :: (string \<Rightarrow> unit \<Rightarrow> unit) option, onOpen = None,
       onClose = None, cacheKey = ''dashboard_data'', forceRefresh = False\<rparr>
      \<lparr>dataCache = [(''dashboard_data'', \<lparr>data = JObj [(''temp'', JNum 72)], timestamp = 0,
                       isStale = False\<rparr>)],
       isCached_st = True, isStale_st = False, initialLoad_st = False, hasConnectedRef = True,
       caller = ()\<rparr>) =
     [(''dashboard_data'', \<lparr>data = JObj [(''temp'', JNum 72)], timestamp = 0, isStale = True\<rparr>)]"
proof -
  let ?o = "\<lparr>onMessage = None, onError = None :: (string \<Rightarrow> unit \<Rightarrow> unit) option, onOpen = None,
       onClose = None, cacheKey = ''dashboard_data'', forceRefresh = False\<rparr>"
  let ?st = "\<lparr>dataCache = [(''dashboard_data'', \<lparr>data = JObj [(''temp'', JNum 72)], timestamp = 0,
                       isStale = False\<rparr>)],
       isCached_st = True, isStale_st = False, initialLoad_st = False, hasConnectedRef = True,
       caller = ()\<rparr>"
  have keys: "map fst (dataCache (refreshData ?o ?st)) = [''dashboard_data'']"
    and entry: "map_of (dataCache (refreshData ?o ?st)) ''dashboard_data'' =
      Some \<lparr>data = JObj [(''temp'', JNum 72)], timestamp = 0, isStale = True\<rparr>"
    using refreshData_keeps_entry [of ?o ?st] by simp_all
  obtain p where p: "dataCache (refreshData ?o ?st) = [p]" and "fst p = ''dashboard_data''"
    using keys by (cases "dataCache (refreshData ?o ?st)") auto
  with entry show ?thesis
    by (cases p) (simp split: if_splits)
qed

lemma fold_sse_onError:
  "\<exists>w. fold (sse_onError options) errs st = st\<lparr>caller := w\<rparr>"
proof (induction errs arbitrary: st)
  case Nil
  have "st = st\<lparr>caller := caller st\<rparr>" by simp
  then have "\<exists>w. st = st\<lparr>caller := w\<rparr>" by (rule exI)
  then show ?case by simp
next
  case (Cons e errs)
  from Cons [of "sse_onError options e st"] show ?case
    by (auto simp: sse_onError_def)
qed

text \<open>
  C8. The error handler passes the error to the caller's \<open>onError\<close> (when there is one)
  and leaves the cache as it is; after any number of stream errors the cache is the
  same, and a render returns the same view as without them.
\<close>

theorem stream_error_keeps_cache:
  "dataCache (sse_onError options err st) = dataCache st \<and>
   caller (sse_onError options err st) =
     (case onError options of None \<Rightarrow> caller st | Some f \<Rightarrow> f err (caller st)) \<and>
   dataCache (fold (sse_onError options) errs st) = dataCache st \<and>
   fst (useCachedSSE t1 t2 t3 url options sseResult (fold (sse_onError options) errs st)) =
     fst (useCachedSSE t1 t2 t3 url options sseResult st)"
proof -
  obtain w where w: "fold (sse_onError options) errs st = st\<lparr>caller := w\<rparr>"
    using fold_sse_onError [of options errs st] by (elim exE)
  show ?thesis
    by (simp add: w sse_onError_def call1_def useCachedSSE_def split_beta)
qed

section \<open>Checks, statistics and the stored flag\<close>

lemma snd_has: "snd (has now k c) = c"
  by (simp add: has_def split: option.splits)

lemma snd_isStale_cache: "snd (isStale_cache now k c) = c"
  by (simp add: isStale_cache_def split: option.splits)

lemma snd_getStats: "snd (getStats now c) = c"
  by (simp add: getStats_def)

lemma fst_has:
  "fst (has now k c) \<longleftrightarrow> (\<exists>e. map_of c k = Some e \<and> now - timestamp e \<le> CACHE_DURATION)"
  by (simp add: has_def split: option.splits)

lemma map_of_get:
  "map_of (snd (get now key c)) =
     (case map_of c key of
        None \<Rightarrow> map_of c
      | Some e \<Rightarrow> if now - timestamp e > CACHE_DURATION then (map_of c)(key := None)
                  else map_of c)"
proof (cases "map_of c key")
  case None
  then show ?thesis by (simp add: get_absent)
next
  case (Some e)
  then show ?thesis
    by (cases "now - timestamp e > CACHE_DURATION")
       (simp_all add: get_expired get_live delete_conv')
qed

lemma map_of_exec_other:
  "\<not> removes k call \<Longrightarrow> map_of c k \<noteq> None \<Longrightarrow> map_of (exec now call c) k \<noteq> None"
proof (cases call)
  case (GetOp key)
  assume "\<not> removes k call" and "map_of c k \<noteq> None"
  with GetOp show ?thesis
    by (auto simp: map_of_get split: option.splits)
next
  case (MarkStaleOp key)
  assume "map_of c k \<noteq> None"
  with MarkStaleOp show ?thesis
    by (cases "map_of c key") (auto simp: markStale_absent map_of_markStale_present)
qed (auto simp: map_of_set_cache snd_has snd_isStale_cache snd_getStats clear_def delete_conv')

lemma map_of_run_other:
  "list_all (\<lambda>x. \<not> removes k (snd x)) calls \<Longrightarrow> map_of c k \<noteq> None \<Longrightarrow>
   map_of (run calls c) k \<noteq> None"
proof (induction calls arbitrary: c)
  case Nil
  then show ?case by simp
next
  case (Cons x calls)
  obtain now call where x: "x = (now, call)" by (cases x)
  with Cons.prems have "map_of (exec now call c) k \<noteq> None"
    by (simp add: map_of_exec_other)
  with Cons x show ?case by simp
qed

lemma run_checks:
  "list_all (\<lambda>x. is_check (snd x)) calls \<Longrightarrow> run calls c = c"
proof (induction calls arbitrary: c)
  case Nil
  then show ?case by simp
next
  case (Cons x calls)
  obtain now call where x: "x = (now, call)" by (cases x)
  with Cons.prems have "is_check call" by simp
  then have "exec now call c = c"
    by (cases call) (simp_all add: snd_has snd_isStale_cache)
  with Cons x show ?case by simp
qed

lemma keys_getStats: "keys_s (fst (getStats now c)) = map fst c"
  by (simp add: getStats_def)

lemma key_listed: "k \<in> set (map fst c) \<longleftrightarrow> map_of c k \<noteq> None"
  by (simp add: map_of_eq_None_iff)

text \<open>
  C9. \<open>has\<close> answers true exactly when the key has an entry whose age is at most the
  expiry threshold of 300 s; \<open>has\<close> and \<open>isStale\<close> leave the cache as it is. A key
  that \<open>getStats\<close> lists is still listed after any sequence of calls that contains no
  \<open>get\<close> of that key, no \<open>clear\<close> of that key and no \<open>clearAll\<close>. In particular, after
  calls of \<open>has\<close> and \<open>isStale\<close> only, an entry older than the expiry threshold is
  denied by \<open>has\<close> and still reported by \<open>getStats\<close>.
\<close>

theorem has_is_expiry_check:
  "(fst (has now k c) \<longleftrightarrow>
      (\<exists>e. map_of c k = Some e \<and> now - timestamp e \<le> CACHE_DURATION)) \<and>
   CACHE_DURATION = 300 * 1000 \<and>
   snd (has now k c) = c \<and>
   snd (isStale_cache now k c) = c \<and>
   (list_all (\<lambda>x. \<not> removes k (snd x)) calls \<and> k \<in> set (keys_s (fst (getStats t c))) \<longrightarrow>
      k \<in> set (keys_s (fst (getStats t' (run calls c))))) \<and>
   (list_all (\<lambda>x. is_check (snd x)) calls \<and> map_of c k = Some e \<and>
    now - timestamp e > CACHE_DURATION \<longrightarrow>
      \<not> fst (has now k (run calls c)) \<and>
      stats_of k (fst (getStats now (run calls c))) = Some (statsEntry now k e))"
proof -
  have kept: "list_all (\<lambda>x. \<not> removes k (snd x)) calls \<and> k \<in> set (keys_s (fst (getStats t c))) \<longrightarrow>
      k \<in> set (keys_s (fst (getStats t' (run calls c))))"
    unfolding keys_getStats key_listed by (simp add: map_of_run_other)
  have lingering: "list_all (\<lambda>x. is_check (snd x)) calls \<and> map_of c k = Some e \<and>
    now - timestamp e > CACHE_DURATION \<longrightarrow>
      \<not> fst (has now k (run calls c)) \<and>
      stats_of k (fst (getStats now (run calls c))) = Some (statsEntry now k e)"
    by (simp add: run_checks fst_has stats_of_getStats)
  have dur: "CACHE_DURATION = 300 * 1000"
    by (simp add: CACHE_DURATION_def)
  from fst_has [of now k c] snd_has [of now k c] snd_isStale_cache [of now k c] dur kept lingering
  show ?thesis
    by blast
qed

text \<open>
  C9 at a concrete cache: an entry of age 400 s after one \<open>has\<close> and one \<open>isStale\<close>.
\<close>

theorem has_is_expiry_check_witness:
  "\<not> fst (has 400002 ''dashboard_data''
      (run [(400000, HasOp ''dashboard_data''), (400001, IsStaleOp ''dashboard_data'')]
         [(''dashboard_data'', \<lparr>data = JNum 72, timestamp = 0, isStale = False\<rparr>)])) \<and>
   stats_of ''dashboard_data'' (fst (getStats 400002
      (run [(400000, HasOp ''dashboard_data''), (400001, IsStaleOp ''dashboard_data'')]
         [(''dashboard_data'', \<lparr>data = JNum 72, timestamp = 0, isStale = False\<rparr>)]))) =
     Some \<lparr>key_s = ''dashboard_data'', age_s = 400, isStale_s = False\<rparr> \<and>
   ''dashboard_data'' \<in> set (keys_s (fst (getStats 400002
      (run [(400000, HasOp ''dashboard_data''), (400001, IsStaleOp ''dashboard_data'')]
         [(''dashboard_data'', \<lparr>data = JNum 72, timestamp = 0, isStale = False\<rparr>)]))))"
  using has_is_expiry_check
    [of 400002 "''dashboard_data''"
        "[(''dashboard_data'', \<lparr>data = JNum 72, timestamp = 0, isStale = False\<rparr>)]"
        "[(400000, HasOp ''dashboard_data''), (400001, IsStaleOp ''dashboard_data'')]"
        0 400002 "\<lparr>data = JNum 72, timestamp = 0, isStale = False\<rparr>"]
  by (simp add: statsEntry_def getStats_def)

lemma stored_flag_exec:
  "stored_flag k (exec t call c) \<Longrightarrow> \<not> stored_flag k c \<Longrightarrow> call = MarkStaleOp k"
proof (cases call)
  case (GetOp key)
  assume "stored_flag k (exec t call c)" and "\<not> stored_flag k c"
  with GetOp show ?thesis
    by (auto simp: stored_flag_def map_of_get split: option.splits if_splits)
next
  case (MarkStaleOp key)
  assume "stored_flag k (exec t call c)" and "\<not> stored_flag k c"
  with MarkStaleOp show ?thesis
    by (cases "map_of c key")
       (auto simp: stored_flag_def markStale_absent map_of_markStale_present
             split: option.splits if_splits)
qed (auto simp: stored_flag_def map_of_set_cache snd_has snd_isStale_cache snd_getStats
       clear_def clearAll_def delete_conv' split: option.splits if_splits)

lemma entries_getStats:
  "map key_s (entries_s (fst (getStats now c))) = map fst c \<and>
   map isStale_s (entries_s (fst (getStats now c))) = map (\<lambda>p. isStale (snd p)) c"
  by (simp add: getStats_def statsEntry_def split_beta)

text \<open>
  C10. \<open>getStats\<close> leaves the cache as it is and reports, entry by entry, the key and
  the stored flag. A call turns the stored flag of a key on only if it is \<open>markStale\<close> of
  that key or a \<open>get\<close> of that key at an age beyond the staleness threshold. For an entry
  made by \<open>set\<close> at time \<open>t0\<close> and followed by calls of \<open>has\<close> and \<open>isStale\<close> only,
  at an age beyond the staleness threshold \<open>getStats\<close> reports the flag false while
  \<open>isStale\<close> answers true.
\<close>

theorem getStats_reports_stored_flag:
  "snd (getStats now c) = c \<and>
   map key_s (entries_s (fst (getStats now c))) = map fst c \<and>
   map isStale_s (entries_s (fst (getStats now c))) = map (\<lambda>p. isStale (snd p)) c \<and>
   (stored_flag k (exec t call c) \<and> \<not> stored_flag k c \<longrightarrow>
      call = MarkStaleOp k \<or>
      (call = GetOp k \<and> (\<exists>e. map_of c k = Some e \<and> t - timestamp e > STALE_DURATION))) \<and>
   (list_all (\<lambda>x. is_check (snd x)) calls \<and> now - t0 > STALE_DURATION \<longrightarrow>
      stats_of k (fst (getStats now (run calls (set_cache t0 k v c)))) =
        Some \<lparr>key_s = k, age_s = (now - t0 + 500) div 1000, isStale_s = False\<rparr> \<and>
      fst (isStale_cache now k (run calls (set_cache t0 k v c))))"
proof -
  have only: "stored_flag k (exec t call c) \<and> \<not> stored_flag k c \<longrightarrow>
      call = MarkStaleOp k \<or>
      (call = GetOp k \<and> (\<exists>e. map_of c k = Some e \<and> t - timestamp e > STALE_DURATION))"
    using stored_flag_exec [of k t call c] by blast
  have scenario: "list_all (\<lambda>x. is_check (snd x)) calls \<and> now - t0 > STALE_DURATION \<longrightarrow>
      stats_of k (fst (getStats now (run calls (set_cache t0 k v c)))) =
        Some \<lparr>key_s = k, age_s = (now - t0 + 500) div 1000, isStale_s = False\<rparr> \<and>
      fst (isStale_cache now k (run calls (set_cache t0 k v c)))"
    by (simp add: run_checks stats_of_getStats map_of_set_cache statsEntry_def isStale_cache_def)
  from snd_getStats [of now c] entries_getStats [of now c] only scenario show ?thesis
    by blast
qed

text \<open>
  C10 at a concrete cache: an entry of age 1900 s after one \<open>has\<close> and one
  \<open>isStale\<close>; and \<open>markStale\<close> turning the flag of a fresh entry on.
\<close>

theorem getStats_reports_stored_flag_witness:
  "stats_of ''suction_system_data'' (fst (getStats 1900000
      (run [(1800001, HasOp ''suction_system_data''), (1850000, IsStaleOp ''suction_system_data'')]
         (set_cache 0 ''suction_system_data'' (JNum 5)
            [(''suction_system_data'', \<lparr>data = JNum 4, timestamp = 0, isStale = False\<rparr>)])))) =
     Some \<lparr>key_s = ''suction_system_data'', age_s = 1900, isStale_s = False\<rparr> \<and>
   fst (isStale_cache 1900000 ''suction_system_data''
      (run [(1800001, HasOp ''suction_system_data''), (1850000, IsStaleOp ''suction_system_data'')]
         (set_cache 0 ''suction_system_data'' (JNum 5)
            [(''suction_system_data'', \<lparr>data = JNum 4, timestamp = 0, isStale = False\<rparr>)]))) \<and>
   stored_flag ''suction_system_data''
      (exec 1 (MarkStaleOp ''suction_system_data'')
         [(''suction_system_data'', \<lparr>data = JNum 4, timestamp = 0, isStale = False\<rparr>)])"
proof -
  let ?k = "''suction_system_data''"
  let ?c = "[(?k, \<lparr>data = JNum 4, timestamp = 0, isStale = False\<rparr>)]"
  let ?calls = "[(1800001, HasOp ?k), (1850000, IsStaleOp ?k)] :: (int \<times> jsval op) list"
  have flag: "stored_flag ?k (exec 1 (MarkStaleOp ?k) ?c)"
    by (simp add: stored_flag_def markStale_def)
  from getStats_reports_stored_flag [of 1900000 ?c ?k 1 "MarkStaleOp ?k" ?calls 0 "JNum 5"]
  have "stats_of ?k (fst (getStats 1900000 (run ?calls (set_cache 0 ?k (JNum 5) ?c)))) =
          Some \<lparr>key_s = ?k, age_s = 1900, isStale_s = False\<rparr> \<and>
        fst (isStale_cache 1900000 ?k (run ?calls (set_cache 0 ?k (JNum 5) ?c)))"
    by (simp add: STALE_DURATION_def)
  with flag show ?thesis by simp
qed

section \<open>The association list stays a map\<close>

text \<open>
  Every call keeps the keys distinct, so a cache built from the empty one by calls is
  the image of a JavaScript Map, and the reported size is the number of keys.
\<close>

lemma distinct_get:
  "distinct (map fst c) \<Longrightarrow> distinct (map fst (snd (get now key c)))"
  by (simp add: get_def Let_def distinct_update distinct_delete split: option.splits)

lemma distinct_exec:
  "distinct (map fst c) \<Longrightarrow> distinct (map fst (exec now call c))"
  by (cases call)
     (simp_all add: set_cache_def distinct_update distinct_get snd_has snd_isStale_cache
        snd_getStats clear_def clearAll_def distinct_delete keys_markStale)

lemma distinct_run:
  "distinct (map fst c) \<Longrightarrow> distinct (map fst (run calls c))"
  by (induction calls arbitrary: c) (auto simp: distinct_exec)

lemma size_getStats:
  "distinct (map fst c) \<Longrightarrow> size_s (fst (getStats now c)) = card (dom (map_of c))"
proof -
  assume "distinct (map fst c)"
  then have "card (set (map fst c)) = length (map fst c)"
    by (rule distinct_card)
  then show ?thesis
    by (simp add: getStats_def dom_map_of_conv_image_fst)
qed

end
